theory Spec2Isabelle
  imports Main
begin

section \<open>Python values and the object store\<close>

text \<open>
  The program is one Python module, \<^verbatim>\<open>app.py\<close>. Its three helper functions work on
  Python objects: the uploaded data is either a \<^verbatim>\<open>str\<close> or a \<^verbatim>\<open>list\<close> of \<^verbatim>\<open>dict\<close>s
  (one per row), and the result is a freshly built \<^verbatim>\<open>dict\<close> that holds a reference to
  the data. Lists and dictionaries are mutable and shared by reference, so they live in
  an explicit store; \<^verbatim>\<open>None\<close>, booleans, integers, floats and strings are immutable
  and are carried as values.

  A string is a list of characters, each read as a code point below 256. A float is
  carried as the text \<^verbatim>\<open>repr\<close> prints for it (the program never computes with floats;
  \<^verbatim>\<open>nan\<close> stands for a missing cell).
\<close>

type_synonym addr = nat

datatype pyval =
    VNone
  | VBool bool
  | VInt int
  | VFloat string
  | VStr string
  | VRef addr

datatype pyobj =
    OList "pyval list"
  | ODict "(string \<times> pyval) list"

type_synonym heap = "pyobj list"

definition deref :: "heap \<Rightarrow> addr \<Rightarrow> pyobj option" where
  "deref h a = (if a < length h then Some (h ! a) else None)"

text \<open>A new object gets the next free address; nothing that exists is touched.\<close>

definition alloc :: "heap \<Rightarrow> pyobj \<Rightarrow> heap \<times> addr" where
  "alloc h ob = (h @ [ob], length h)"

subsection \<open>Dictionaries\<close>

text \<open>\<^verbatim>\<open>d.get(key, default)\<close> on the items of a dictionary.\<close>

definition dict_get :: "(string \<times> pyval) list \<Rightarrow> string \<Rightarrow> pyval \<Rightarrow> pyval" where
  "dict_get items k dflt = (case map_of items k of Some v \<Rightarrow> v | None \<Rightarrow> dflt)"

text \<open>
  \<^verbatim>\<open>d[key] = value\<close> on the items: an existing key keeps its place, a new key goes
  last.
\<close>

fun dict_set :: "(string \<times> pyval) list \<Rightarrow> string \<Rightarrow> pyval \<Rightarrow> (string \<times> pyval) list" where
  "dict_set [] k v = [(k, v)]"
| "dict_set ((k', v') # items) k v =
     (if k' = k then (k, v) # items else (k', v') # dict_set items k v)"

text \<open>
  \<^verbatim>\<open>obj[key] = value\<close> as a write to the store. On anything but a dictionary Python
  raises; the program only ever assigns into the dictionary it has just built.
\<close>

definition setitem :: "heap \<Rightarrow> addr \<Rightarrow> string \<Rightarrow> pyval \<Rightarrow> heap" where
  "setitem h a k v =
     (case deref h a of
        Some (ODict items) \<Rightarrow> h[a := ODict (dict_set items k v)]
      | _ \<Rightarrow> h)"

text \<open>\<^verbatim>\<open>obj[key]\<close> read from the store; \<open>None\<close> where Python raises.\<close>

definition getitem :: "heap \<Rightarrow> pyval \<Rightarrow> string \<Rightarrow> pyval option" where
  "getitem h v k =
     (case v of
        VRef a \<Rightarrow> (case deref h a of Some (ODict items) \<Rightarrow> map_of items k | _ \<Rightarrow> None)
      | _ \<Rightarrow> None)"

text \<open>\<^verbatim>\<open>obj[key1][key2]\<close>.\<close>

definition getitem2 :: "heap \<Rightarrow> pyval \<Rightarrow> string \<Rightarrow> string \<Rightarrow> pyval option" where
  "getitem2 h v k1 k2 = (case getitem h v k1 of Some d \<Rightarrow> getitem h d k2 | None \<Rightarrow> None)"

subsection \<open>Lists\<close>

definition isinstance_list :: "heap \<Rightarrow> pyval \<Rightarrow> bool" where
  "isinstance_list h v =
     (case v of
        VRef a \<Rightarrow> (case deref h a of Some (OList xs) \<Rightarrow> True | _ \<Rightarrow> False)
      | _ \<Rightarrow> False)"

text \<open>\<^verbatim>\<open>len(data)\<close>; the program calls it only after \<^verbatim>\<open>isinstance(data, list)\<close>.\<close>

definition py_len :: "heap \<Rightarrow> pyval \<Rightarrow> int" where
  "py_len h v =
     (case v of
        VRef a \<Rightarrow> (case deref h a of Some (OList xs) \<Rightarrow> int (length xs) | _ \<Rightarrow> 0)
      | _ \<Rightarrow> 0)"

section \<open>Strings: \<^verbatim>\<open>split\<close>, \<^verbatim>\<open>lower\<close>, \<^verbatim>\<open>repr\<close> and \<^verbatim>\<open>str\<close>\<close>

abbreviation newline :: char where
  "newline \<equiv> CHR 0x0A"

abbreviation backslash :: char where
  "backslash \<equiv> CHR 0x5C"

abbreviation squote :: char where
  "squote \<equiv> CHR 0x27"

abbreviation dquote :: char where
  "dquote \<equiv> CHR 0x22"

text \<open>
  \<^verbatim>\<open>s.split(sep)\<close> for a one-character separator: every separator ends a piece, so the
  empty string gives one empty piece.
\<close>

fun py_split :: "string \<Rightarrow> char \<Rightarrow> string list" where
  "py_split [] sep = [[]]"
| "py_split (c # cs) sep =
     (if c = sep then [] # py_split cs sep
      else (c # hd (py_split cs sep)) # tl (py_split cs sep))"

text \<open>
  The same equations with the recursive call made once; terms are evaluated with these.
\<close>

lemma py_split_not_Nil: "py_split s sep \<noteq> []"
  by (induction s) auto

lemma py_split_code [code]:
  "py_split [] sep = [[]]"
  "py_split (c # cs) sep =
     (case py_split cs sep of
        [] \<Rightarrow> []
      | p # ps \<Rightarrow> if c = sep then [] # p # ps else (c # p) # ps)"
  using py_split_not_Nil [of cs sep] by (cases "py_split cs sep"; auto)+

text \<open>\<^verbatim>\<open>s.lower()\<close>: the capital letters below code point 256 move up by 32.\<close>

definition lower_char :: "char \<Rightarrow> char" where
  "lower_char c =
     (let n = (of_char c :: nat)
      in if (65 \<le> n \<and> n \<le> 90) \<or> (192 \<le> n \<and> n \<le> 222 \<and> n \<noteq> 215)
         then char_of (n + 32) else c)"

definition py_lower :: "string \<Rightarrow> string" where
  "py_lower s = map lower_char s"

text \<open>\<^verbatim>\<open>sep.join(pieces)\<close>.\<close>

fun py_join :: "string \<Rightarrow> string list \<Rightarrow> string" where
  "py_join sep [] = []"
| "py_join sep [p] = p"
| "py_join sep (p # q # ps) = p @ sep @ py_join sep (q # ps)"

text \<open>Decimal digits of an integer, as \<^verbatim>\<open>str\<close> and \<^verbatim>\<open>repr\<close> print it.\<close>

fun str_nat :: "nat \<Rightarrow> string" where
  "str_nat n =
     (if n < 10 then [char_of (48 + n)]
      else str_nat (n div 10) @ [char_of (48 + n mod 10)])"

definition str_int :: "int \<Rightarrow> string" where
  "str_int i = (if i < 0 then CHR ''-'' # str_nat (nat (- i)) else str_nat (nat i))"

text \<open>
  \<^verbatim>\<open>repr\<close> of a string. The quote is \<^verbatim>\<open>"\<close> when the string holds \<^verbatim>\<open>'\<close> and no
  \<^verbatim>\<open>"\<close>, and \<^verbatim>\<open>'\<close> otherwise. The quote and the backslash are escaped with a
  backslash, tab, newline and carriage return are written \<^verbatim>\<open>\t\<close>, \<^verbatim>\<open>\n\<close>, \<^verbatim>\<open>\r\<close>,
  every other character that is not printable is written \<^verbatim>\<open>\xhh\<close>, and a printable
  character is copied as it is.
\<close>

definition hex_digit :: "nat \<Rightarrow> char" where
  "hex_digit d = (if d < 10 then char_of (48 + d) else char_of (87 + d))"

definition printable :: "char \<Rightarrow> bool" where
  "printable c =
     (let n = (of_char c :: nat)
      in (32 \<le> n \<and> n < 127) \<or> (161 \<le> n \<and> n \<noteq> 173))"

definition repr_char :: "char \<Rightarrow> char \<Rightarrow> string" where
  "repr_char quote c =
     (if c = quote \<or> c = backslash then [backslash, c]
      else if c = CHR 0x09 then [backslash, CHR ''t'']
      else if c = newline then [backslash, CHR ''n'']
      else if c = CHR 0x0D then [backslash, CHR ''r'']
      else if printable c then [c]
      else [backslash, CHR ''x'',
            hex_digit ((of_char c :: nat) div 16), hex_digit ((of_char c :: nat) mod 16)])"

definition repr_quote :: "string \<Rightarrow> char" where
  "repr_quote s = (if squote \<in> set s \<and> dquote \<notin> set s then dquote else squote)"

definition repr_str :: "string \<Rightarrow> string" where
  "repr_str s = repr_quote s # concat (map (repr_char (repr_quote s)) s) @ [repr_quote s]"

text \<open>
  \<^verbatim>\<open>repr\<close> of any value. A list prints its elements between brackets and a
  dictionary its \<^verbatim>\<open>key: value\<close> pairs between braces, both separated by a comma and a
  space. \<open>vis\<close> holds the containers being printed: one that contains itself prints as
  \<^verbatim>\<open>[...]\<close> or \<^verbatim>\<open>{...}\<close>. An address outside the store does not occur in a Python
  state; the function is total and prints it as empty.
\<close>

lemma unvisited_decreases:
  assumes "a < (n::nat)" and "a \<notin> set vis"
  shows "card ({..<n} - set vis) - Suc 0 < card ({..<n} - set vis)"
proof -
  from assms have "{..<n} - set vis \<noteq> {}"
    by auto
  then have "0 < card ({..<n} - set vis)"
    by (simp add: card_gt_0_iff)
  then show ?thesis
    by simp
qed

function py_repr :: "heap \<Rightarrow> addr list \<Rightarrow> pyval \<Rightarrow> string" where
  "py_repr h vis v =
     (case v of
        VNone \<Rightarrow> ''None''
      | VBool b \<Rightarrow> (if b then ''True'' else ''False'')
      | VInt i \<Rightarrow> str_int i
      | VFloat r \<Rightarrow> r
      | VStr s \<Rightarrow> repr_str s
      | VRef a \<Rightarrow>
          (if a < length h then
             (case h ! a of
                OList xs \<Rightarrow>
                  (if a \<in> set vis then ''[...]''
                   else ''['' @ py_join '', '' (map (py_repr h (a # vis)) xs) @ '']'')
              | ODict items \<Rightarrow>
                  (if a \<in> set vis then ''{...}''
                   else ''{'' @ py_join '', ''
                          (map (\<lambda>(k, x). repr_str k @ '': '' @ py_repr h (a # vis) x) items)
                        @ ''}''))
           else []))"
  by pat_completeness auto
termination
  by (relation "measure (\<lambda>(h, vis, v). card ({..<length h} - set vis))")
     (auto intro: unvisited_decreases)

declare py_repr.simps [simp del]

text \<open>
  \<^verbatim>\<open>str(x)\<close>: a string is itself, anything else prints as its \<^verbatim>\<open>repr\<close>. This is
  the string that \<^verbatim>\<open>str\<close> returns; \<open>str_raises\<close> below says where it raises instead.
\<close>

definition py_str :: "heap \<Rightarrow> pyval \<Rightarrow> string" where
  "py_str h v = (case v of VStr s \<Rightarrow> s | _ \<Rightarrow> py_repr h [] v)"

text \<open>
  Since version 3.11 (and the security releases of 3.7 to 3.10) CPython does not print
  an integer of more than 4300 decimal digits, the default of
  \<^verbatim>\<open>sys.get_int_max_str_digits()\<close>: \<^verbatim>\<open>str\<close> and \<^verbatim>\<open>repr\<close> raise \<^verbatim>\<open>ValueError\<close> for
  it, the sign not counted. \<open>repr_raises\<close> goes through the values as \<open>py_repr\<close>
  prints them, into a list or a dictionary unless it is being printed, and says whether
  one of the integers met is too long. A string is returned by \<^verbatim>\<open>str\<close> as it is, and
  nothing is raised for it. Both helper functions below call \<^verbatim>\<open>str(data)\<close>; their
  definitions give what a call returns.
\<close>

definition int_max_str_digits :: nat where
  "int_max_str_digits = 4300"

definition int_too_long :: "int \<Rightarrow> bool" where
  "int_too_long i = (int_max_str_digits < length (str_nat (nat \<bar>i\<bar>)))"

function repr_raises :: "heap \<Rightarrow> addr list \<Rightarrow> pyval \<Rightarrow> bool" where
  "repr_raises h vis v =
     (case v of
        VInt i \<Rightarrow> int_too_long i
      | VRef a \<Rightarrow>
          (if a < length h \<and> a \<notin> set vis then
             (case h ! a of
                OList xs \<Rightarrow> list_ex (repr_raises h (a # vis)) xs
              | ODict items \<Rightarrow> list_ex (\<lambda>(k, x). repr_raises h (a # vis) x) items)
           else False)
      | _ \<Rightarrow> False)"
  by pat_completeness auto
termination
  by (relation "measure (\<lambda>(h, vis, v). card ({..<length h} - set vis))")
     (auto intro: unvisited_decreases)

declare repr_raises.simps [simp del]

definition str_raises :: "heap \<Rightarrow> pyval \<Rightarrow> bool" where
  "str_raises h v = (case v of VStr s \<Rightarrow> False | _ \<Rightarrow> repr_raises h [] v)"

section \<open>The helper functions of \<^verbatim>\<open>app.py\<close>\<close>

subsection \<open>\<^verbatim>\<open>process_bible_data\<close>\<close>

text \<open>
  \<^verbatim>\<open>
  def process_bible_data(data, mode: str, params: dict) -> dict:
      result = {
          "summary": f"Processed data using {mode} mode",
          "processed_data": data,
          "statistics": {
              "total_entries": len(data) if isinstance(data, list)
                               else len(str(data).split('\n')),
              "processing_mode": mode,
          }
      }
      if mode == "Translation Analysis":
          result["analysis"] = {
              "source_language": params.get('source_lang', 'Unknown'),
              "target_language": params.get('target_lang', 'Unknown'),
              "analysis_types": params.get('analysis_type', [])
          }
      elif mode == "Quality Check":
          result["quality_report"] = {
              "checks_performed": params.get('check_types', []),
              "issues_found": 0,  # Placeholder
              "quality_score": 95  # Placeholder
          }
      return result
  \<close>
  The function takes the store and returns the store it leaves and the reference to
  the dictionary it has built. \<open>data\<close> is passed as the caller holds it, by
  reference when it is a list. \<open>params\<close> is only read through \<^verbatim>\<open>get\<close>, so its items
  are passed. The inner dictionary of a display is built before the outer one, and the
  default \<^verbatim>\<open>[]\<close> of a \<^verbatim>\<open>get\<close> is a new empty list.
\<close>

definition process_bible_data ::
    "heap \<Rightarrow> pyval \<Rightarrow> string \<Rightarrow> (string \<times> pyval) list \<Rightarrow> heap \<times> pyval" where
  "process_bible_data h data mode params =
     (let total_entries =
            (if isinstance_list h data then py_len h data
             else int (length (py_split (py_str h data) newline)));
          (h1, statistics) =
            alloc h (ODict [(''total_entries'', VInt total_entries),
                            (''processing_mode'', VStr mode)]);
          (h2, result) =
            alloc h1 (ODict [(''summary'', VStr (''Processed data using '' @ mode @ '' mode'')),
                             (''processed_data'', data),
                             (''statistics'', VRef statistics)])
      in if mode = ''Translation Analysis'' then
           (let (h3, empty) = alloc h2 (OList []);
                (h4, analysis) =
                  alloc h3 (ODict [(''source_language'',
                                      dict_get params ''source_lang'' (VStr ''Unknown'')),
                                   (''target_language'',
                                      dict_get params ''target_lang'' (VStr ''Unknown'')),
                                   (''analysis_types'',
                                      dict_get params ''analysis_type'' (VRef empty))])
            in (setitem h4 result ''analysis'' (VRef analysis), VRef result))
         else if mode = ''Quality Check'' then
           (let (h3, empty) = alloc h2 (OList []);
                (h4, quality_report) =
                  alloc h3 (ODict [(''checks_performed'',
                                      dict_get params ''check_types'' (VRef empty)),
                                   (''issues_found'', VInt 0),
                                   (''quality_score'', VInt 95)])
            in (setitem h4 result ''quality_report'' (VRef quality_report), VRef result))
         else (h2, VRef result))"

subsection \<open>\<^verbatim>\<open>create_download_content\<close>\<close>

text \<open>
  \<^verbatim>\<open>
  def create_download_content(data, format_type: str) -> str:
      if format_type.lower() == 'json':
          return json.dumps(data, indent=2)
      elif format_type.lower() == 'tsv' and isinstance(data, list):
          df = pd.DataFrame(data)
          return df.to_csv(sep='\t', index=False)
      else:
          return str(data)
  \<close>
  Two branches hand the data to a library (\<^verbatim>\<open>json\<close>, \<^verbatim>\<open>pandas\<close>) and return whatever
  that call gives or raises; the model records which call is made and with which
  arguments. The last branch computes its string itself: \<open>Returned s\<close> is what the call
  returns when \<^verbatim>\<open>str(data)\<close> returns, and \<open>create_download_content_raises\<close> says
  where \<^verbatim>\<open>str(data)\<close>, and with it the call, raises \<^verbatim>\<open>ValueError\<close> instead. What the
  two library calls raise is theirs and is not described.
\<close>

datatype libcall =
    Json_dumps pyval nat
  | DataFrame_to_csv pyval char bool

datatype download =
    Returned string
  | Delegated libcall

definition create_download_content :: "heap \<Rightarrow> pyval \<Rightarrow> string \<Rightarrow> download" where
  "create_download_content h data format_type =
     (if py_lower format_type = ''json'' then Delegated (Json_dumps data 2)
      else if py_lower format_type = ''tsv'' \<and> isinstance_list h data
        then Delegated (DataFrame_to_csv data (CHR 0x09) False)
      else Returned (py_str h data))"

definition create_download_content_raises :: "heap \<Rightarrow> pyval \<Rightarrow> string \<Rightarrow> bool" where
  "create_download_content_raises h data format_type =
     (py_lower format_type \<noteq> ''json'' \<and>
      \<not> (py_lower format_type = ''tsv'' \<and> isinstance_list h data) \<and>
      str_raises h data)"

subsection \<open>\<^verbatim>\<open>call_ai_api\<close>\<close>

text \<open>
  \<^verbatim>\<open>
  def call_ai_api(content: str, prompt: str, api_provider: str, api_key: str = None) -> str:
      if api_provider == "OpenAI":
          pass
      elif api_provider == "Anthropic":
          pass
      return "AI processing result placeholder"
  \<close>
  A request to a provider would be an effect on the network; the function takes the
  requests sent so far and returns them with its result. Both branches are \<^verbatim>\<open>pass\<close>
  (the calls to \<^verbatim>\<open>requests.post\<close> are commented out in the source).
\<close>

record request =
  url :: string
  headers :: "(string \<times> string) list"
  payload :: string

definition call_ai_api ::
    "request list \<Rightarrow> string \<Rightarrow> string \<Rightarrow> string \<Rightarrow> string option \<Rightarrow> request list \<times> string" where
  "call_ai_api sent content prompt api_provider api_key =
     (let sent' =
            (if api_provider = ''OpenAI'' then sent
             else if api_provider = ''Anthropic'' then sent
             else sent)
      in (sent', ''AI processing result placeholder''))"

subsection \<open>Reading the upload\<close>

text \<open>
  The script reads the uploaded file before it calls \<^verbatim>\<open>process_bible_data\<close>:
  \<^verbatim>\<open>
  file_content = uploaded_file.read()
  if uploaded_file.name.endswith('.tsv'):
      df = pd.read_csv(io.StringIO(file_content.decode('utf-8')), sep='\t')
      data = df.to_dict('records')
  else:
      data = file_content.decode('utf-8')
  \<close>
  Decoding and \<^verbatim>\<open>pandas.read_csv\<close> are library code: they are parameters of the model,
  each returning a value or the exception it raises. \<open>read_csv\<close> stands for decoding
  followed by \<^verbatim>\<open>pd.read_csv(..., sep='\t')\<close> and returns the frame: its column names and,
  row by row, its cells. \<^verbatim>\<open>to_dict('records')\<close> builds one dictionary per row, from the
  column names to the cells of the row, and the list of these dictionaries.
\<close>

abbreviation tab :: char where
  "tab \<equiv> CHR 0x09"

record frame =
  columns :: "string list"
  rows :: "pyval list list"

record 'e library =
  decode_utf8 :: "string \<Rightarrow> 'e + string"
  read_csv :: "string \<Rightarrow> 'e + frame"

text \<open>\<^verbatim>\<open>s.endswith(suffix)\<close>.\<close>

definition endswith :: "string \<Rightarrow> string \<Rightarrow> bool" where
  "endswith s suffix =
     (length suffix \<le> length s \<and> drop (length s - length suffix) s = suffix)"

text \<open>
  \<^verbatim>\<open>dict(zip(columns, cells))\<close>: the record of one row; a name that comes twice keeps
  its first place and its last cell.
\<close>

definition row_dict :: "string list \<Rightarrow> pyval list \<Rightarrow> (string \<times> pyval) list" where
  "row_dict cols cells = foldl (\<lambda>d (k, v). dict_set d k v) [] (zip cols cells)"

fun to_dict_rows :: "heap \<Rightarrow> string list \<Rightarrow> pyval list list \<Rightarrow> heap \<times> pyval list" where
  "to_dict_rows h cols [] = (h, [])"
| "to_dict_rows h cols (cells # rest) =
     (let (h1, a) = alloc h (ODict (row_dict cols cells));
          (h2, refs) = to_dict_rows h1 cols rest
      in (h2, VRef a # refs))"

definition to_dict_records :: "heap \<Rightarrow> frame \<Rightarrow> heap \<times> pyval" where
  "to_dict_records h df =
     (let (h1, refs) = to_dict_rows h (columns df) (rows df);
          (h2, a) = alloc h1 (OList refs)
      in (h2, VRef a))"

definition read_uploaded_file ::
    "'e library \<Rightarrow> heap \<Rightarrow> string \<Rightarrow> string \<Rightarrow> 'e + heap \<times> pyval" where
  "read_uploaded_file lib h name file_content =
     (if endswith name ''.tsv'' then
        (case read_csv lib file_content of
           Inl e \<Rightarrow> Inl e
         | Inr df \<Rightarrow> Inr (to_dict_records h df))
      else
        (case decode_utf8 lib file_content of
           Inl e \<Rightarrow> Inl e
         | Inr s \<Rightarrow> Inr (h, VStr s)))"

section \<open>Stores of a Python state, and examples\<close>

text \<open>
  In a Python state every reference points to an object that exists. \<open>wf_val\<close> says
  so of one value and \<open>wf_heap\<close> of every value held in a list or dictionary of the
  store.
\<close>

definition wf_val :: "heap \<Rightarrow> pyval \<Rightarrow> bool" where
  "wf_val h v = (case v of VRef a \<Rightarrow> a < length h | _ \<Rightarrow> True)"

definition values_of :: "pyobj \<Rightarrow> pyval list" where
  "values_of ob = (case ob of OList xs \<Rightarrow> xs | ODict items \<Rightarrow> map snd items)"

definition wf_heap :: "heap \<Rightarrow> bool" where
  "wf_heap h = list_all (\<lambda>ob. list_all (wf_val h) (values_of ob)) h"

text \<open>The string values held in the rows of a list of dictionaries.\<close>

definition string_cells :: "heap \<Rightarrow> pyval \<Rightarrow> string list" where
  "string_cells h data =
     (case data of
        VRef a \<Rightarrow>
          (case deref h a of
             Some (OList elems) \<Rightarrow>
               concat (map (\<lambda>row. case row of
                               VRef r \<Rightarrow>
                                 (case deref h r of
                                    Some (ODict items) \<Rightarrow>
                                      concat (map (\<lambda>(k, v). case v of VStr s \<Rightarrow> [s] | _ \<Rightarrow> [])
                                                items)
                                  | _ \<Rightarrow> [])
                             | _ \<Rightarrow> []) elems)
           | _ \<Rightarrow> [])
      | _ \<Rightarrow> [])"

text \<open>
  Two rows with the same book, chapter and verse, as the upload of a TSV file with the
  columns \<^verbatim>\<open>Book\<close>, \<^verbatim>\<open>Chapter\<close>, \<^verbatim>\<open>Verse\<close>, \<^verbatim>\<open>Target Text\<close> leaves them: the rows
  at addresses 0 and 1, the list of rows at 2, and at 3 the list of checks selected in
  the form.
\<close>

definition duplicate_example :: heap where
  "duplicate_example =
     [ODict [(''Book'', VStr ''Genesis''), (''Chapter'', VInt 1), (''Verse'', VInt 1),
             (''Target Text'', VStr ''In the beginning'')],
      ODict [(''Book'', VStr ''Genesis''), (''Chapter'', VInt 1), (''Verse'', VInt 1),
             (''Target Text'', VStr ''Variant reading'')],
      OList [VRef 0, VRef 1],
      OList [VStr ''Consistency Check'']]"

text \<open>One row with an extra column whose value holds the character \<^verbatim>\<open><\<close>.\<close>

definition xml_example :: heap where
  "xml_example =
     [ODict [(''Book'', VStr ''Genesis''), (''Chapter'', VInt 1), (''Verse'', VInt 1),
             (''Target Text'', VStr ''In the beginning''), (''note'', VStr ''a<b'')],
      OList [VRef 0]]"

text \<open>
  A reader for examples. On a table of plain words (lines ending in a newline, fields
  separated by tabs, distinct column names, every row as long as the header, every field
  made of letters and spaces, beginning with a letter, and not a word that
  \<^verbatim>\<open>read_csv\<close> takes for a missing value, a boolean or a number) \<^verbatim>\<open>read_csv\<close> skips empty
  lines and returns every cell as a string; \<open>words_reader\<close> computes that frame. It is
  used at such tables only: what it answers for any other text says nothing about
  \<^verbatim>\<open>pandas\<close>.
\<close>

definition is_letter :: "char \<Rightarrow> bool" where
  "is_letter c =
     (let n = (of_char c :: nat) in (65 \<le> n \<and> n \<le> 90) \<or> (97 \<le> n \<and> n \<le> 122))"

definition plain_word :: "string \<Rightarrow> bool" where
  "plain_word w =
     (w \<noteq> [] \<and> is_letter (hd w) \<and> list_all (\<lambda>c. is_letter c \<or> c = CHR '' '') w \<and>
      py_lower w \<notin> set [''na'', ''nan'', ''nat'', ''null'', ''none'', ''true'', ''false'',
                          ''inf'', ''infinity''])"

definition words_reader :: "string \<Rightarrow> string + frame" where
  "words_reader text =
     (case filter (\<lambda>line. line \<noteq> []) (py_split text newline) of
        [] \<Rightarrow> Inl ''No columns to parse from file''
      | header # body \<Rightarrow>
          (let names = py_split header tab;
               cells = map (\<lambda>line. py_split line tab) body
           in if distinct names \<and> list_all plain_word names \<and>
                 list_all (\<lambda>r. length r = length names \<and> list_all plain_word r) cells
              then Inr \<lparr>columns = names, rows = map (map VStr) cells\<rparr>
              else Inl ''not a table of plain words''))"

definition words_library :: "string library" where
  "words_library =
     \<lparr>decode_utf8 = (\<lambda>bytes. if list_all (\<lambda>c. (of_char c :: nat) < 128) bytes then Inr bytes
                              else Inl ''not ASCII''),
      read_csv = words_reader\<rparr>"

text \<open>The text of a table: fields joined by tabs, every line ended by a newline.\<close>

definition tsv_text :: "string list list \<Rightarrow> string" where
  "tsv_text lines = concat (map (\<lambda>fields. py_join [tab] fields @ [newline]) lines)"


text \<open>The dictionary under \<^verbatim>\<open>result['quality_report']\<close>, whole.\<close>

definition quality_report_of :: "heap \<Rightarrow> pyval \<Rightarrow> pyobj option" where
  "quality_report_of h result =
     (case getitem h result ''quality_report'' of
        Some (VRef report) \<Rightarrow> deref h report
      | _ \<Rightarrow> None)"

text \<open>
  A value that is an integer too long to print, and the list \<^verbatim>\<open>[10 ** 4300]\<close>: its one
  element has 4301 digits.
\<close>

definition long_int :: "pyval \<Rightarrow> bool" where
  "long_int v = (case v of VInt i \<Rightarrow> int_too_long i | _ \<Rightarrow> False)"

definition long_int_example :: heap where
  "long_int_example = [OList [VInt (10 ^ int_max_str_digits)]]"

text \<open>
  \<open>any_case word s\<close>: the string \<open>s\<close> is \<open>word\<close>, a word of small letters, with any
  of its letters written as capitals.
\<close>

definition any_case :: "string \<Rightarrow> string \<Rightarrow> bool" where
  "any_case word s =
     list_all2 (\<lambda>c d. c = d \<or> (of_char c :: nat) + 32 = of_char d) s word"

definition small_letter :: "char \<Rightarrow> bool" where
  "small_letter d = (97 \<le> (of_char d :: nat) \<and> (of_char d :: nat) \<le> 122)"


section \<open>Printing\<close>

lemma py_repr_scalar:
  "py_repr h vis VNone = ''None''"
  "py_repr h vis (VBool b) = (if b then ''True'' else ''False'')"
  "py_repr h vis (VInt i) = str_int i"
  "py_repr h vis (VFloat r) = r"
  "py_repr h vis (VStr s) = repr_str s"
  by (subst py_repr.simps, simp)+

lemma py_repr_ref:
  "py_repr h vis (VRef a) =
     (if a < length h then
        (case h ! a of
           OList xs \<Rightarrow>
             (if a \<in> set vis then ''[...]''
              else ''['' @ py_join '', '' (map (py_repr h (a # vis)) xs) @ '']'')
         | ODict items \<Rightarrow>
             (if a \<in> set vis then ''{...}''
              else ''{'' @ py_join '', ''
                     (map (\<lambda>(k, x). repr_str k @ '': '' @ py_repr h (a # vis) x) items)
                   @ ''}''))
      else [])"
  by (subst py_repr.simps) simp

lemma py_str_ref: "py_str h (VRef a) = py_repr h [] (VRef a)"
  by (simp add: py_str_def)

lemma set_py_join: "p \<in> set ps \<Longrightarrow> set p \<subseteq> set (py_join sep ps)"
  by (induction sep ps rule: py_join.induct) auto

lemma less_than_in_repr_str:
  assumes "CHR ''<'' \<in> set s"
  shows "CHR ''<'' \<in> set (repr_str s)"
proof -
  have "repr_char (repr_quote s) CHR ''<'' = [CHR ''<'']"
    by (simp add: repr_char_def repr_quote_def printable_def)
  with assms have "CHR ''<'' \<in> set (concat (map (repr_char (repr_quote s)) s))"
    by force
  then show ?thesis
    by (simp add: repr_str_def)
qed

lemma less_than_in_py_str:
  assumes "s \<in> set (string_cells h data)" and "CHR ''<'' \<in> set s"
  shows "CHR ''<'' \<in> set (py_str h data)"
proof -
  from assms(1) obtain a elems r items k
    where data: "data = VRef a" and list: "deref h a = Some (OList elems)"
      and row: "VRef r \<in> set elems" and dict: "deref h r = Some (ODict items)"
      and cell: "(k, VStr s) \<in> set items"
    by (auto simp: string_cells_def split: pyval.splits option.splits pyobj.splits) metis
  from list have a: "a < length h" "h ! a = OList elems"
    by (auto simp: deref_def split: if_splits)
  from dict have r: "r < length h" "h ! r = ODict items"
    by (auto simp: deref_def split: if_splits)
  from a r have ne: "r \<noteq> a"
    by auto
  define pieces where
    "pieces = map (\<lambda>(k, x). repr_str k @ '': '' @ py_repr h [r, a] x) items"
  define dicts where "dicts = map (py_repr h [a]) elems"
  have "repr_str k @ '': '' @ py_repr h [r, a] (VStr s) \<in> set pieces"
    unfolding pieces_def using cell by force
  moreover have "CHR ''<'' \<in> set (repr_str k @ '': '' @ py_repr h [r, a] (VStr s))"
    using assms(2) by (simp add: py_repr_scalar less_than_in_repr_str)
  ultimately have "CHR ''<'' \<in> set (py_join '', '' pieces)"
    using set_py_join by blast
  moreover have "py_repr h [a] (VRef r) = ''{'' @ py_join '', '' pieces @ ''}''"
    using r ne by (simp add: py_repr_ref pieces_def)
  ultimately have "CHR ''<'' \<in> set (py_repr h [a] (VRef r))"
    by simp
  moreover have "py_repr h [a] (VRef r) \<in> set dicts"
    unfolding dicts_def using row by force
  ultimately have "CHR ''<'' \<in> set (py_join '', '' dicts)"
    using set_py_join by blast
  moreover have "py_repr h [] (VRef a) = ''['' @ py_join '', '' dicts @ '']''"
    using a by (simp add: py_repr_ref dicts_def)
  ultimately show ?thesis
    by (simp add: data py_str_def)
qed

section \<open>Objects added to the store\<close>

text \<open>
  What is read from a well-formed store does not change when objects are added after
  it: the old objects hold no reference to the new ones.
\<close>

lemma wf_heap_values:
  assumes "wf_heap h" and "a < length h" and "x \<in> set (values_of (h ! a))"
  shows "wf_val h x"
  using assms by (auto simp: wf_heap_def list_all_iff)

lemma py_repr_extend:
  assumes "wf_heap h" and "wf_val h v"
    and "set vis' \<inter> {a. a < length h} = set vis \<inter> {a. a < length h}"
  shows "py_repr (h @ ext) vis' v = py_repr h vis v"
  using assms
proof (induction h vis v arbitrary: vis' rule: py_repr.induct)
  case (1 h vis v)
  show ?case
  proof (cases v)
    case (VRef a)
    with "1.prems" have a: "a < length h"
      by (simp add: wf_val_def)
    have mem: "a \<in> set vis' \<longleftrightarrow> a \<in> set vis"
      using a "1.prems"(3) by auto
    have vis: "set (a # vis') \<inter> {a. a < length h} = set (a # vis) \<inter> {a. a < length h}"
      using "1.prems"(3) by auto
    show ?thesis
    proof (cases "h ! a")
      case (OList xs)
      have "py_repr (h @ ext) (a # vis') x = py_repr h (a # vis) x"
        if "a \<notin> set vis" and "x \<in> set xs" for x
      proof -
        from that OList a "1.prems"(1) have "wf_val h x"
          by (intro wf_heap_values [of h a]) (simp_all add: values_of_def)
        with "1.IH"(1) [OF VRef a OList that] "1.prems"(1) vis show ?thesis
          by blast
      qed
      then show ?thesis
        using VRef a OList mem by (simp add: py_repr_ref nth_append cong: map_cong)
    next
      case (ODict items)
      have "py_repr (h @ ext) (a # vis') (snd p) = py_repr h (a # vis) (snd p)"
        if "a \<notin> set vis" and "p \<in> set items" for p
      proof -
        from that ODict a "1.prems"(1) have "wf_val h (snd p)"
          by (intro wf_heap_values [of h a]) (simp_all add: values_of_def)
        with "1.IH"(2) [OF VRef a ODict that, of "fst p" "snd p"] "1.prems"(1) vis
        show ?thesis
          by simp
      qed
      then show ?thesis
        using VRef a ODict mem
        by (simp add: py_repr_ref nth_append case_prod_beta cong: map_cong)
    qed
  qed (simp_all add: py_repr_scalar)
qed


lemma py_repr_old:
  assumes "wf_heap h" and "wf_val h v" and "\<forall>a\<in>set vis. length h \<le> a"
  shows "py_repr (h @ ext) vis v = py_repr h [] v"
  using assms by (intro py_repr_extend) auto

lemma py_str_old:
  assumes "wf_heap h" and "wf_val h v"
  shows "py_str (h @ ext) v = py_str h v"
proof (cases v)
  case (VStr s)
  then show ?thesis by (simp add: py_str_def)
qed (use assms py_repr_old [of h v "[]" ext] in \<open>simp_all add: py_str_def\<close>)

lemma isinstance_list_old:
  "wf_val h v \<Longrightarrow> isinstance_list (h @ ext) v = isinstance_list h v"
  by (simp add: isinstance_list_def wf_val_def deref_def nth_append split: pyval.splits)

lemma py_len_old:
  "wf_val h v \<Longrightarrow> py_len (h @ ext) v = py_len h v"
  by (simp add: py_len_def wf_val_def deref_def nth_append split: pyval.splits)

lemma wf_params_get:
  "list_all (wf_val h) (map snd params) \<Longrightarrow> map_of params k = Some v \<Longrightarrow> wf_val h v"
  by (drule map_of_SomeD) (force simp: list_all_iff)

lemma wf_val_append: "wf_val h v \<Longrightarrow> wf_val (h @ ext) v"
  by (simp add: wf_val_def split: pyval.splits)

lemma wf_heap_append:
  assumes "wf_heap h" and "list_all (\<lambda>ob. list_all (wf_val (h @ ext)) (values_of ob)) ext"
  shows "wf_heap (h @ ext)"
  using assms by (auto simp: wf_heap_def list_all_iff intro: wf_val_append)


lemma wf_val_simps:
  "wf_val h VNone" "wf_val h (VBool b)" "wf_val h (VInt i)" "wf_val h (VFloat r)"
  "wf_val h (VStr s)" "wf_val h (VRef a) \<longleftrightarrow> a < length h"
  by (simp_all add: wf_val_def)

lemma wf_val_dict_get:
  assumes "list_all (wf_val h) (map snd params)" and "wf_val (h @ ext) dflt"
  shows "wf_val (h @ ext) (dict_get params k dflt)"
proof (cases "map_of params k")
  case None
  with assms(2) show ?thesis
    by (simp add: dict_get_def)
next
  case (Some v)
  with assms(1) have "wf_val h v"
    by (rule_tac wf_params_get)
  with Some show ?thesis
    by (simp add: dict_get_def wf_val_append)
qed

section \<open>What \<^verbatim>\<open>process_bible_data\<close> builds\<close>


text \<open>
  The store and the reference the function returns, written out: at most four new
  objects after the old store, which is a prefix of the new one.
\<close>

lemma process_bible_data_store:
  "process_bible_data h data mode params =
     (let n = length h;
          statistics =
            ODict [(''total_entries'',
                      VInt (if isinstance_list h data then py_len h data
                            else int (length (py_split (py_str h data) newline)))),
                   (''processing_mode'', VStr mode)];
          result = [(''summary'', VStr (''Processed data using '' @ mode @ '' mode'')),
                    (''processed_data'', data), (''statistics'', VRef n)]
      in if mode = ''Translation Analysis'' then
           (h @ [statistics, ODict (result @ [(''analysis'', VRef (n + 3))]), OList [],
                 ODict [(''source_language'', dict_get params ''source_lang'' (VStr ''Unknown'')),
                        (''target_language'', dict_get params ''target_lang'' (VStr ''Unknown'')),
                        (''analysis_types'', dict_get params ''analysis_type'' (VRef (n + 2)))]],
            VRef (n + 1))
         else if mode = ''Quality Check'' then
           (h @ [statistics, ODict (result @ [(''quality_report'', VRef (n + 3))]), OList [],
                 ODict [(''checks_performed'', dict_get params ''check_types'' (VRef (n + 2))),
                        (''issues_found'', VInt 0), (''quality_score'', VInt 95)]],
            VRef (n + 1))
         else (h @ [statistics, ODict result], VRef (n + 1)))"
  unfolding process_bible_data_def alloc_def setitem_def deref_def
  by (simp add: Let_def nth_append list_update_append)



section \<open>\<^verbatim>\<open>process_bible_data\<close> and the objects that exist\<close>

lemma process_bible_data_extends:
  "\<exists>ext. fst (process_bible_data h data mode params) = h @ ext"
  unfolding process_bible_data_store Let_def by simp

lemma process_bible_data_wf:
  assumes "wf_heap h" and "wf_val h data" and "list_all (wf_val h) (map snd params)"
  shows "wf_heap (fst (process_bible_data h data mode params))"
proof -
  note wf = wf_val_append [OF assms(2)] wf_val_dict_get [OF assms(3)] wf_val_simps
  have new: "wf_heap (h @ ext)"
    if "list_all (\<lambda>ob. list_all (wf_val (h @ ext)) (values_of ob)) ext" for ext
    using assms(1) that by (rule wf_heap_append)
  consider "mode = ''Translation Analysis''" | "mode = ''Quality Check''"
    | "mode \<noteq> ''Translation Analysis''" "mode \<noteq> ''Quality Check''"
    by blast
  then show ?thesis
  proof cases
    case 1
    then show ?thesis
      unfolding process_bible_data_store Let_def
      by (simp add: values_of_def wf new)
  next
    case 2
    then show ?thesis
      unfolding process_bible_data_store Let_def
      by (simp add: values_of_def wf new)
  next
    case 3
    then show ?thesis
      unfolding process_bible_data_store Let_def
      by (simp add: values_of_def wf new)
  qed
qed


lemma process_bible_data_result_wf:
  "wf_val (fst (process_bible_data h data mode params))
     (snd (process_bible_data h data mode params))"
  unfolding process_bible_data_store Let_def by (simp add: wf_val_simps)

text \<open>
  Claim C8. The call never changes its input. For every store, data, mode and
  parameters the store it leaves begins with the old store, object for object: the list
  of rows and every row are what they were, field for field and in their order. So in a
  well-formed store the data prints the same, is a list or not as before, and has the
  same length after the call as before it.
\<close>

theorem process_bible_data_frame:
  "case process_bible_data h data mode params of
     (h', result) \<Rightarrow>
       take (length h) h' = h \<and>
       (wf_heap h \<and> wf_val h data \<longrightarrow>
          py_str h' data = py_str h data \<and>
          isinstance_list h' data = isinstance_list h data \<and>
          py_len h' data = py_len h data)"
proof -
  from process_bible_data_extends [of h data mode params]
  obtain ext where "fst (process_bible_data h data mode params) = h @ ext"
    by auto
  then show ?thesis
    by (cases "process_bible_data h data mode params")
       (simp add: py_str_old isinstance_list_old py_len_old)
qed


theorem process_bible_data_frame_witness:
  "wf_heap duplicate_example \<and> wf_val duplicate_example (VRef 2) \<and>
   (case process_bible_data duplicate_example (VRef 2) ''Quality Check''
           [(''check_types'', VRef 3)] of
      (h', result) \<Rightarrow>
        take (length duplicate_example) h' = duplicate_example \<and>
        py_str h' (VRef 2) = py_str duplicate_example (VRef 2) \<and>
        isinstance_list h' (VRef 2) = isinstance_list duplicate_example (VRef 2) \<and>
        py_len h' (VRef 2) = py_len duplicate_example (VRef 2))"
proof -
  have store: "wf_heap duplicate_example"
    by code_simp
  have data: "wf_val duplicate_example (VRef 2)"
    by code_simp
  from process_bible_data_frame
         [of duplicate_example "VRef 2" "''Quality Check''" "[(''check_types'', VRef 3)]"]
    store data
  show ?thesis
    by (cases "process_bible_data duplicate_example (VRef 2) ''Quality Check''
                 [(''check_types'', VRef 3)]") simp
qed


section \<open>The quality report\<close>

text \<open>
  Claim C2, as stated, fails. For the two rows of \<open>duplicate_example\<close>, which have the
  same reference, and the consistency check selected, the report of the quality check
  counts no issue where the claim wants one warning \<^verbatim>\<open>DUPLICATE_REFERENCE\<close> for the
  row at index 1.
\<close>

theorem duplicate_reference_not_flagged:
  "(case process_bible_data duplicate_example (VRef 2) ''Quality Check''
           [(''check_types'', VRef 3)] of
      (h', result) \<Rightarrow> getitem2 h' result ''quality_report'' ''issues_found'') = Some (VInt 0)"
  by code_simp

text \<open>
  Claim C2, amended. In the mode \<^verbatim>\<open>Quality Check\<close> the report is a placeholder: for
  every store, data and parameters it holds \<^verbatim>\<open>issues_found\<close> 0 and
  \<^verbatim>\<open>quality_score\<close> 95, and \<^verbatim>\<open>checks_performed\<close> is the selection found under
  \<^verbatim>\<open>check_types\<close> in the parameters, or a new empty list when there is none. No row
  is looked at and no duplicated reference is flagged.
\<close>

theorem quality_check_placeholder:
  "case process_bible_data h data ''Quality Check'' params of
     (h', result) \<Rightarrow>
       getitem2 h' result ''quality_report'' ''issues_found'' = Some (VInt 0) \<and>
       getitem2 h' result ''quality_report'' ''quality_score'' = Some (VInt 95) \<and>
       getitem2 h' result ''quality_report'' ''checks_performed'' =
         Some (dict_get params ''check_types'' (VRef (length h + 2))) \<and>
       deref h' (length h + 2) = Some (OList [])"
  unfolding process_bible_data_store
  by (simp add: Let_def getitem_def getitem2_def deref_def nth_append)

text \<open>The printed result is the same when the call starts from a longer store.\<close>

lemma result_str_shift:
  assumes "wf_heap h" and "wf_val h data" and "list_all (wf_val h) (map snd params)"
  shows "(case process_bible_data (h @ ext) data mode params of
            (h', result) \<Rightarrow> py_str h' result) =
         (case process_bible_data h data mode params of
            (h', result) \<Rightarrow> py_str h' result)"
proof -
  have old: "py_repr (h @ ext') vis v = py_repr h [] v"
    if "map_of params k = Some v" "\<forall>a\<in>set vis. length h \<le> a" for ext' vis v k
    using that assms by (intro py_repr_old) (auto dest: wf_params_get)
  have data: "py_repr (h @ ext') vis data = py_repr h [] data"
    if "\<forall>a\<in>set vis. length h \<le> a" for ext' vis
    using that assms by (intro py_repr_old) auto
  note stats = isinstance_list_old [OF assms(2)] py_len_old [OF assms(2)]
    py_str_old [OF assms(1,2)]
  consider "mode = ''Translation Analysis''" | "mode = ''Quality Check''"
    | "mode \<noteq> ''Translation Analysis''" "mode \<noteq> ''Quality Check''"
    by blast
  then show ?thesis
  proof cases
    case 1
    then show ?thesis
      unfolding process_bible_data_store Let_def
      by (simp add: py_str_ref py_repr_ref py_repr_scalar nth_append stats data
            dict_get_def old split: option.splits)
  next
    case 2
    then show ?thesis
      unfolding process_bible_data_store Let_def
      by (simp add: py_str_ref py_repr_ref py_repr_scalar nth_append stats data
            dict_get_def old split: option.splits)
  next
    case 3
    then show ?thesis
      unfolding process_bible_data_store Let_def
      by (simp add: py_str_ref py_repr_ref py_repr_scalar nth_append stats data)
  qed
qed


text \<open>What the call writes under three of the keys of its result.\<close>

lemma quality_report_written:
  "(case process_bible_data h data ''Quality Check'' params of
      (h', result) \<Rightarrow> quality_report_of h' result) =
   Some (ODict [(''checks_performed'', dict_get params ''check_types'' (VRef (length h + 2))),
                (''issues_found'', VInt 0), (''quality_score'', VInt 95)])"
  unfolding process_bible_data_store
  by (simp add: Let_def quality_report_of_def getitem_def deref_def nth_append)

lemma processed_data_kept:
  "(case process_bible_data h data mode params of
      (h', result) \<Rightarrow> getitem h' result ''processed_data'') = Some data"
  unfolding process_bible_data_store
  by (simp add: Let_def getitem_def deref_def nth_append)

lemma total_entries_written:
  "(case process_bible_data h data mode params of
      (h', result) \<Rightarrow> getitem2 h' result ''statistics'' ''total_entries'') =
   Some (VInt (if isinstance_list h data then py_len h data
               else int (length (py_split (py_str h data) newline))))"
  unfolding process_bible_data_store
  by (simp add: Let_def getitem_def getitem2_def deref_def nth_append)

text \<open>
  Claim C7, as stated, fails. The claim compares and orders sequences of issues, and the
  quality check produces none. For the two rows of \<open>duplicate_example\<close> and the
  consistency check, the report is the dictionary written here whole: the selection as
  it was given, the number 0 and the number 95. No entry of it is a sequence of issues,
  and there is no record index, severity or code to order by.
\<close>

theorem report_without_issue_sequence:
  "(case process_bible_data duplicate_example (VRef 2) ''Quality Check''
           [(''check_types'', VRef 3)] of
      (h', result) \<Rightarrow> quality_report_of h' result) =
   Some (ODict [(''checks_performed'', VRef 3), (''issues_found'', VInt 0),
                (''quality_score'', VInt 95)])"
  by code_simp

text \<open>
  Claim C7, amended. The quality check is repeatable. Run it twice in a row on the same
  data and selection of checks, the second run in the store the first one left: the two
  results print the same and the first result still prints as it did. Both results hold
  the data they were given under \<^verbatim>\<open>processed_data\<close> and the same
  \<^verbatim>\<open>total_entries\<close>, the count of the data. Both reports are the same three entries
  and nothing more: \<^verbatim>\<open>checks_performed\<close>, the selection found under \<^verbatim>\<open>check_types\<close>
  in the parameters as it was given (a new empty list when there is none),
  \<^verbatim>\<open>issues_found\<close> 0 and \<^verbatim>\<open>quality_score\<close> 95. No check is run, and no sequence
  of issues is built or ordered.
\<close>

theorem quality_check_repeatable:
  assumes "wf_heap h" and "wf_val h data" and "list_all (wf_val h) (map snd params)"
  shows "case process_bible_data h data ''Quality Check'' params of
           (h1, r1) \<Rightarrow>
             (case process_bible_data h1 data ''Quality Check'' params of
                (h2, r2) \<Rightarrow>
                  py_str h2 r2 = py_str h1 r1 \<and>
                  py_str h2 r1 = py_str h1 r1 \<and>
                  getitem h1 r1 ''processed_data'' = Some data \<and>
                  getitem h2 r2 ''processed_data'' = Some data \<and>
                  getitem2 h1 r1 ''statistics'' ''total_entries'' =
                    Some (VInt (if isinstance_list h data then py_len h data
                                else int (length (py_split (py_str h data) newline)))) \<and>
                  getitem2 h2 r2 ''statistics'' ''total_entries'' =
                    getitem2 h1 r1 ''statistics'' ''total_entries'' \<and>
                  quality_report_of h1 r1 =
                    Some (ODict [(''checks_performed'',
                                    dict_get params ''check_types'' (VRef (length h + 2))),
                                 (''issues_found'', VInt 0), (''quality_score'', VInt 95)]) \<and>
                  quality_report_of h2 r2 =
                    Some (ODict [(''checks_performed'',
                                    dict_get params ''check_types'' (VRef (length h1 + 2))),
                                 (''issues_found'', VInt 0), (''quality_score'', VInt 95)]))"
proof -
  obtain h1 r1 where run1: "process_bible_data h data ''Quality Check'' params = (h1, r1)"
    by (cases "process_bible_data h data ''Quality Check'' params")
  obtain h2 r2 where run2: "process_bible_data h1 data ''Quality Check'' params = (h2, r2)"
    by (cases "process_bible_data h1 data ''Quality Check'' params")
  from process_bible_data_extends [of h data "''Quality Check''" params] run1
  obtain ext where h1: "h1 = h @ ext"
    by auto
  from process_bible_data_extends [of h1 data "''Quality Check''" params] run2
  obtain ext' where h2: "h2 = h1 @ ext'"
    by auto
  from process_bible_data_wf [OF assms, of "''Quality Check''"] run1 have wf1: "wf_heap h1"
    by simp
  from process_bible_data_result_wf [of h data "''Quality Check''" params] run1
  have r1: "wf_val h1 r1"
    by simp
  from result_str_shift [OF assms, of ext "''Quality Check''"] run1 run2
  have same: "py_str h2 r2 = py_str h1 r1"
    by (simp add: h1)
  from wf1 r1 have kept: "py_str h2 r1 = py_str h1 r1"
    unfolding h2 by (rule py_str_old)
  from processed_data_kept [of h data "''Quality Check''" params] run1
  have data1: "getitem h1 r1 ''processed_data'' = Some data"
    by simp
  from processed_data_kept [of h1 data "''Quality Check''" params] run2
  have data2: "getitem h2 r2 ''processed_data'' = Some data"
    by simp
  from total_entries_written [of h data "''Quality Check''" params] run1
  have total1: "getitem2 h1 r1 ''statistics'' ''total_entries'' =
      Some (VInt (if isinstance_list h data then py_len h data
                  else int (length (py_split (py_str h data) newline))))"
    by simp
  from total_entries_written [of h1 data "''Quality Check''" params] run2
  have "getitem2 h2 r2 ''statistics'' ''total_entries'' =
      Some (VInt (if isinstance_list h1 data then py_len h1 data
                  else int (length (py_split (py_str h1 data) newline))))"
    by simp
  with total1 have total2: "getitem2 h2 r2 ''statistics'' ''total_entries'' =
      getitem2 h1 r1 ''statistics'' ''total_entries''"
    unfolding h1
    by (simp only: isinstance_list_old [OF assms(2)] py_len_old [OF assms(2)]
          py_str_old [OF assms(1,2)])
  from quality_report_written [of h data params] run1
  have report1: "quality_report_of h1 r1 =
      Some (ODict [(''checks_performed'', dict_get params ''check_types'' (VRef (length h + 2))),
                   (''issues_found'', VInt 0), (''quality_score'', VInt 95)])"
    by simp
  from quality_report_written [of h1 data params] run2
  have report2: "quality_report_of h2 r2 =
      Some (ODict [(''checks_performed'', dict_get params ''check_types'' (VRef (length h1 + 2))),
                   (''issues_found'', VInt 0), (''quality_score'', VInt 95)])"
    by simp
  from same kept data1 data2 total1 total2 report1 report2 show ?thesis
    unfolding run1 run2 prod.case by (intro conjI)
qed

theorem quality_check_repeatable_witness:
  "wf_heap duplicate_example \<and> wf_val duplicate_example (VRef 2) \<and>
   list_all (wf_val duplicate_example) (map snd [(''check_types'', VRef 3)]) \<and>
   (case process_bible_data duplicate_example (VRef 2) ''Quality Check''
           [(''check_types'', VRef 3)] of
      (h1, r1) \<Rightarrow>
        (case process_bible_data h1 (VRef 2) ''Quality Check'' [(''check_types'', VRef 3)] of
           (h2, r2) \<Rightarrow>
             py_str h2 r2 = py_str h1 r1 \<and>
             py_str h2 r1 = py_str h1 r1 \<and>
             getitem h2 r2 ''processed_data'' = Some (VRef 2) \<and>
             getitem2 h1 r1 ''statistics'' ''total_entries'' = Some (VInt 2) \<and>
             getitem2 h2 r2 ''statistics'' ''total_entries'' = Some (VInt 2) \<and>
             quality_report_of h2 r2 =
               Some (ODict [(''checks_performed'', VRef 3), (''issues_found'', VInt 0),
                            (''quality_score'', VInt 95)])))"
proof -
  have store: "wf_heap duplicate_example"
    by code_simp
  have data: "wf_val duplicate_example (VRef 2)"
    by code_simp
  have params: "list_all (wf_val duplicate_example) (map snd [(''check_types'', VRef 3)])"
    by code_simp
  have rows_counted: "isinstance_list duplicate_example (VRef 2)"
    "py_len duplicate_example (VRef 2) = 2"
    by code_simp+
  have checks: "dict_get [(''check_types'', VRef 3)] ''check_types'' d = VRef 3" for d
    by (simp add: dict_get_def)
  obtain h1 r1 where run1:
    "process_bible_data duplicate_example (VRef 2) ''Quality Check''
       [(''check_types'', VRef 3)] = (h1, r1)"
    by (cases "process_bible_data duplicate_example (VRef 2) ''Quality Check''
                 [(''check_types'', VRef 3)]")
  obtain h2 r2 where run2:
    "process_bible_data h1 (VRef 2) ''Quality Check'' [(''check_types'', VRef 3)] = (h2, r2)"
    by (cases "process_bible_data h1 (VRef 2) ''Quality Check'' [(''check_types'', VRef 3)]")
  from quality_check_repeatable [OF store data params] store data params rows_counted
  show ?thesis
    unfolding run1 run2 prod.case checks by simp
qed


section \<open>Reading the upload\<close>

lemma to_dict_rows_spec:
  "to_dict_rows h cols cellss =
     (h @ map (\<lambda>cells. ODict (row_dict cols cells)) cellss,
      map VRef [length h..<length h + length cellss])"
proof (induction cellss arbitrary: h)
  case Nil
  show ?case by simp
next
  case (Cons cells rest)
  have "[length h..<Suc (length h + length rest)] =
          length h # [Suc (length h)..<Suc (length h + length rest)]"
    by (rule upt_conv_Cons) simp
  with Cons show ?case
    by (simp add: alloc_def)
qed

lemma read_uploaded_file_tsv:
  assumes "endswith name ''.tsv''"
  shows "read_uploaded_file lib h name content =
           (case read_csv lib content of
              Inl e \<Rightarrow> Inl e
            | Inr df \<Rightarrow>
                Inr (h @ map (\<lambda>cells. ODict (row_dict (columns df) cells)) (rows df)
                       @ [OList (map VRef [length h..<length h + length (rows df)])],
                     VRef (length h + length (rows df))))"
  using assms
  by (simp add: read_uploaded_file_def to_dict_records_def to_dict_rows_spec alloc_def
        split: sum.splits)


text \<open>
  Claim C4, as stated, fails. A table whose chapter and verse are the words \<^verbatim>\<open>One\<close> and
  \<^verbatim>\<open>Two\<close>, and a table that has no column \<^verbatim>\<open>Verse\<close> and no column \<^verbatim>\<open>Target Text\<close>, are
  both read without an error: each row becomes a record with the cells as they are.
\<close>

theorem unchecked_rows_accepted:
  "read_uploaded_file words_library [] ''verses.tsv''
     (tsv_text [[''Book'', ''Chapter'', ''Verse'', ''Target Text''],
                [''Genesis'', ''One'', ''Two'', ''In the beginning'']]) =
     Inr ([ODict [(''Book'', VStr ''Genesis''), (''Chapter'', VStr ''One''),
                  (''Verse'', VStr ''Two''), (''Target Text'', VStr ''In the beginning'')],
           OList [VRef 0]],
          VRef 1) \<and>
   read_uploaded_file words_library [] ''verses.tsv''
     (tsv_text [[''Book'', ''Chapter''], [''Genesis'', ''One'']]) =
     Inr ([ODict [(''Book'', VStr ''Genesis''), (''Chapter'', VStr ''One'')], OList [VRef 0]],
          VRef 1)"
  by code_simp

text \<open>
  Claim C4, amended. Reading a TSV upload checks nothing of its own. When
  \<^verbatim>\<open>read_csv\<close> raises, that exception is what the reading raises; there is no
  \<^verbatim>\<open>ParseError\<close> for a missing column or for a chapter or verse that is not a number.
  When \<^verbatim>\<open>read_csv\<close> returns a frame, the data is a new list with one record for each
  row of the frame, in the order of the rows, each holding the cells of its row under the
  column names of the frame: no row is dropped, and no object that existed is changed.
\<close>

theorem tsv_upload_unchecked:
  assumes "endswith name ''.tsv''"
  shows "case read_csv lib content of
           Inl e \<Rightarrow> read_uploaded_file lib h name content = Inl e
         | Inr df \<Rightarrow>
             (case read_uploaded_file lib h name content of
                Inl e \<Rightarrow> False
              | Inr (h', data) \<Rightarrow>
                  take (length h) h' = h \<and>
                  isinstance_list h' data \<and>
                  py_len h' data = int (length (rows df)) \<and>
                  (case data of
                     VRef a \<Rightarrow>
                       (case deref h' a of
                          Some (OList refs) \<Rightarrow>
                            map (\<lambda>ref. case ref of VRef r \<Rightarrow> deref h' r | _ \<Rightarrow> None) refs =
                              map (\<lambda>cells. Some (ODict (row_dict (columns df) cells))) (rows df)
                        | _ \<Rightarrow> False)
                   | _ \<Rightarrow> False))"
proof (cases "read_csv lib content")
  case (Inl e)
  with assms show ?thesis
    by (simp add: read_uploaded_file_tsv)
next
  case (Inr df)
  have "map (\<lambda>ref. case ref of
                     VRef r \<Rightarrow> deref (h @ map f cellss @ [ob]) r
                   | _ \<Rightarrow> None)
          (map VRef [length h..<length h + length cellss]) =
        map (\<lambda>cells. Some (f cells)) cellss" for f :: "pyval list \<Rightarrow> pyobj" and cellss ob
    by (rule nth_equalityI) (simp_all add: deref_def nth_append)
  with assms Inr show ?thesis
    by (simp add: read_uploaded_file_tsv isinstance_list_def py_len_def deref_def nth_append)
qed


theorem tsv_upload_unchecked_witness:
  "endswith ''verses.tsv'' ''.tsv'' \<and>
   read_csv words_library (tsv_text [[''Book'', ''Chapter''], [''Genesis'', ''One'']]) =
     Inr \<lparr>columns = [''Book'', ''Chapter''], rows = [[VStr ''Genesis'', VStr ''One'']]\<rparr> \<and>
   (case read_uploaded_file words_library [] ''verses.tsv''
           (tsv_text [[''Book'', ''Chapter''], [''Genesis'', ''One'']]) of
      Inl e \<Rightarrow> False
    | Inr (h', data) \<Rightarrow>
        take (length ([] :: heap)) h' = [] \<and>
        isinstance_list h' data \<and>
        py_len h' data = 1)"
proof -
  have name: "endswith ''verses.tsv'' ''.tsv''"
    by code_simp
  have frame: "read_csv words_library (tsv_text [[''Book'', ''Chapter''], [''Genesis'', ''One'']]) =
      Inr \<lparr>columns = [''Book'', ''Chapter''], rows = [[VStr ''Genesis'', VStr ''One'']]\<rparr>"
    by code_simp
  from tsv_upload_unchecked
         [OF name, where lib = words_library and h = "[]"
            and content = "tsv_text [[''Book'', ''Chapter''], [''Genesis'', ''One'']]"]
    name frame
  show ?thesis
    by (auto split: sum.splits prod.splits)
qed

text \<open>
  Splitting at a character undoes joining with it, when no piece holds the character.
\<close>

lemma py_split_no_sep: "sep \<notin> set s \<Longrightarrow> py_split s sep = [s]"
  by (induction s) auto

lemma py_split_append:
  "sep \<notin> set s \<Longrightarrow> py_split (s @ sep # t) sep = s # py_split t sep"
  by (induction s) auto

lemma py_split_join:
  "ws \<noteq> [] \<Longrightarrow> \<forall>w \<in> set ws. sep \<notin> set w \<Longrightarrow> py_split (py_join [sep] ws) sep = ws"
  by (induction "[sep]" ws rule: py_join.induct) (simp_all add: py_split_no_sep py_split_append)

lemma set_py_join_subset:
  "set (py_join sep ws) \<subseteq> set sep \<union> \<Union> (set ` set ws)"
  by (induction sep ws rule: py_join.induct) auto

lemma plain_word_chars:
  assumes "plain_word w"
  shows "tab \<notin> set w" and "newline \<notin> set w" and "w \<noteq> []"
proof -
  from assms have "\<forall>c \<in> set w. is_letter c \<or> c = CHR '' ''"
    by (simp add: plain_word_def list_all_iff)
  moreover have "\<not> is_letter tab" "\<not> is_letter newline"
    by (simp_all add: is_letter_def)
  ultimately show "tab \<notin> set w" and "newline \<notin> set w"
    by auto
  from assms show "w \<noteq> []"
    by (simp add: plain_word_def)
qed

lemma header_line:
  assumes "names \<noteq> []" and "list_all plain_word names"
  shows "py_join [tab] names \<noteq> []" and "newline \<notin> set (py_join [tab] names)"
    and "py_split (py_join [tab] names) tab = names"
proof -
  from assms(2) have words: "\<forall>w \<in> set names. plain_word w"
    by (simp add: list_all_iff)
  from assms(1) obtain w ws where names: "names = w # ws"
    by (cases names) auto
  with words have "w \<noteq> []"
    by (simp add: plain_word_chars)
  with names show "py_join [tab] names \<noteq> []"
    by (cases ws) auto
  from words set_py_join_subset [of "[tab]" names]
  show "newline \<notin> set (py_join [tab] names)"
    by (auto dest: plain_word_chars(2))
  from assms(1) words show "py_split (py_join [tab] names) tab = names"
    by (intro py_split_join) (auto dest: plain_word_chars(1))
qed

lemma words_reader_header_only:
  assumes "names \<noteq> []" and "distinct names" and "list_all plain_word names"
  shows "words_reader (py_join [tab] names) = Inr \<lparr>columns = names, rows = []\<rparr>"
    and "words_reader (py_join [tab] names @ [newline]) = Inr \<lparr>columns = names, rows = []\<rparr>"
proof -
  note line = header_line [OF assms(1,3)]
  from line(2) have "py_split (py_join [tab] names) newline = [py_join [tab] names]"
    by (rule py_split_no_sep)
  with line(1,3) assms(2,3)
  show "words_reader (py_join [tab] names) = Inr \<lparr>columns = names, rows = []\<rparr>"
    by (simp add: words_reader_def)
  from line(2) have "py_split (py_join [tab] names @ [newline]) newline = [py_join [tab] names, []]"
    by (simp add: py_split_append)
  with line(1,3) assms(2,3)
  show "words_reader (py_join [tab] names @ [newline]) = Inr \<lparr>columns = names, rows = []\<rparr>"
    by (simp add: words_reader_def)
qed

text \<open>
  Claim C6. A TSV upload that is a header row and no data row gives an empty list of
  records and raises nothing. The file is the header alone, its column names joined by
  tabs, with or without the newline at its end; \<^verbatim>\<open>read_csv\<close> is \<open>words_reader\<close>, so
  the column names are distinct plain words. For every such header the upload returns a
  new empty list in a store that is otherwise the old one, and \<^verbatim>\<open>process_bible_data\<close>
  reports 0 entries for it in every mode.
\<close>

theorem header_only_upload:
  assumes "endswith name ''.tsv''"
    and "names \<noteq> []" and "distinct names" and "list_all plain_word names"
  shows "read_uploaded_file words_library h name (tsv_text [names]) =
           Inr (h @ [OList []], VRef (length h)) \<and>
         read_uploaded_file words_library h name (py_join [tab] names) =
           Inr (h @ [OList []], VRef (length h)) \<and>
         (case process_bible_data (h @ [OList []]) (VRef (length h)) mode params of
            (h', result) \<Rightarrow>
              getitem2 h' result ''statistics'' ''total_entries'' = Some (VInt 0))"
proof -
  note frame = words_reader_header_only [OF assms(2-4)]
  from assms(1) frame(2)
  have "read_uploaded_file words_library h name (tsv_text [names]) =
          Inr (h @ [OList []], VRef (length h))"
    by (simp add: read_uploaded_file_tsv words_library_def tsv_text_def)
  moreover from assms(1) frame(1)
  have "read_uploaded_file words_library h name (py_join [tab] names) =
          Inr (h @ [OList []], VRef (length h))"
    by (simp add: read_uploaded_file_tsv words_library_def)
  moreover have "case process_bible_data (h @ [OList []]) (VRef (length h)) mode params of
      (h', result) \<Rightarrow> getitem2 h' result ''statistics'' ''total_entries'' = Some (VInt 0)"
    unfolding process_bible_data_store
    by (simp add: Let_def getitem_def getitem2_def deref_def nth_append
          isinstance_list_def py_len_def)
  ultimately show ?thesis
    by simp
qed

theorem header_only_upload_witness:
  "endswith ''verses.tsv'' ''.tsv'' \<and>
   distinct [''Book'', ''Chapter'', ''Verse'', ''Target Text''] \<and>
   list_all plain_word [''Book'', ''Chapter'', ''Verse'', ''Target Text''] \<and>
   read_uploaded_file words_library [] ''verses.tsv''
     (tsv_text [[''Book'', ''Chapter'', ''Verse'', ''Target Text'']]) = Inr ([OList []], VRef 0) \<and>
   (case process_bible_data [OList []] (VRef 0) ''Quality Check'' [] of
      (h', result) \<Rightarrow> getitem2 h' result ''statistics'' ''total_entries'' = Some (VInt 0))"
proof -
  have name: "endswith ''verses.tsv'' ''.tsv''"
    by code_simp
  have names: "[''Book'', ''Chapter'', ''Verse'', ''Target Text''] \<noteq> []"
    by simp
  have different: "distinct [''Book'', ''Chapter'', ''Verse'', ''Target Text'']"
    by code_simp
  have plain: "list_all plain_word [''Book'', ''Chapter'', ''Verse'', ''Target Text'']"
    by code_simp
  from header_only_upload [OF name names different plain, of "[]" "''Quality Check''" "[]"]
    name different plain
  show ?thesis
    by simp
qed


section \<open>Integers too long to print\<close>

lemma length_str_nat_pos: "0 < length (str_nat n)"
  by (subst str_nat.simps) simp

lemma length_str_nat: "length (str_nat n) \<le> Suc k \<longleftrightarrow> n < 10 ^ Suc k"
proof (induction k arbitrary: n)
  case 0
  show ?case
    using length_str_nat_pos [of "n div 10"] by (subst str_nat.simps) auto
next
  case (Suc k)
  show ?case
  proof (cases "n < 10")
    case True
    have "(10::nat) \<le> 10 ^ Suc (Suc k)"
      by simp
    with True have "n < 10 ^ Suc (Suc k)"
      by linarith
    with True show ?thesis
      by (subst str_nat.simps) simp
  next
    case False
    have "n div 10 < 10 ^ Suc k \<longleftrightarrow> n < 10 ^ Suc (Suc k)"
      by (simp add: div_less_iff_less_mult mult.commute)
    with False Suc [of "n div 10"] show ?thesis
      by (subst str_nat.simps) simp
  qed
qed

lemma digits_more_than:
  assumes "0 < k"
  shows "k < length (str_nat n) \<longleftrightarrow> 10 ^ k \<le> n"
proof -
  from assms obtain j where k: "k = Suc j"
    by (cases k) auto
  from length_str_nat [of n j] show ?thesis
    unfolding k by linarith
qed

lemma int_too_long_iff: "int_too_long i \<longleftrightarrow> 10 ^ int_max_str_digits \<le> \<bar>i\<bar>"
proof -
  have "0 < int_max_str_digits"
    by (simp add: int_max_str_digits_def)
  then have "int_too_long i \<longleftrightarrow> 10 ^ int_max_str_digits \<le> nat \<bar>i\<bar>"
    unfolding int_too_long_def by (rule digits_more_than)
  also have "\<dots> \<longleftrightarrow> int (10 ^ int_max_str_digits) \<le> \<bar>i\<bar>"
    by linarith
  finally show ?thesis
    by simp
qed

lemma repr_raises_scalar:
  "repr_raises h vis VNone = False"
  "repr_raises h vis (VBool b) = False"
  "repr_raises h vis (VInt i) = int_too_long i"
  "repr_raises h vis (VFloat r) = False"
  "repr_raises h vis (VStr s) = False"
  by (simp_all add: repr_raises.simps)

lemma repr_raises_ref:
  "repr_raises h vis (VRef a) =
     (if a < length h \<and> a \<notin> set vis then
        (case h ! a of
           OList xs \<Rightarrow> list_ex (repr_raises h (a # vis)) xs
         | ODict items \<Rightarrow> list_ex (\<lambda>(k, x). repr_raises h (a # vis) x) items)
      else False)"
  by (subst repr_raises.simps) simp

lemma stored_long_int:
  assumes "a < length h" and "x \<in> set (values_of (h ! a))" and "long_int x"
  shows "list_ex long_int (concat (map values_of h))"
proof -
  from assms(1) have "h ! a \<in> set h"
    by simp
  with assms(2,3) show ?thesis
    unfolding list_ex_iff by auto
qed

lemma repr_raises_long_int:
  "repr_raises h vis v \<Longrightarrow> long_int v \<or> list_ex long_int (concat (map values_of h))"
proof (induction h vis v rule: repr_raises.induct)
  case (1 h vis v)
  show ?case
  proof (cases v)
    case (VInt i)
    with 1(3) show ?thesis
      by (simp add: repr_raises_scalar long_int_def)
  next
    case (VRef a)
    with 1(3) have a: "a < length h" "a \<notin> set vis"
      by (simp_all add: repr_raises_ref split: if_splits)
    show ?thesis
    proof (cases "h ! a")
      case (OList xs)
      with 1(3) VRef a obtain x where x: "x \<in> set xs" "repr_raises h (a # vis) x"
        by (auto simp: repr_raises_ref list_ex_iff)
      from 1(1) [OF VRef _ OList x(1) x(2)] a
      have "long_int x \<or> list_ex long_int (concat (map values_of h))"
        by simp
      moreover from x(1) OList have "x \<in> set (values_of (h ! a))"
        by (simp add: values_of_def)
      ultimately show ?thesis
        using stored_long_int [OF a(1), of x] by blast
    next
      case (ODict items)
      with 1(3) VRef a obtain k x where x: "(k, x) \<in> set items" "repr_raises h (a # vis) x"
        by (auto simp: repr_raises_ref list_ex_iff)
      from 1(2) [OF VRef _ ODict x(1) refl x(2)] a
      have "long_int x \<or> list_ex long_int (concat (map values_of h))"
        by simp
      moreover from x(1) ODict have "x \<in> set (values_of (h ! a))"
        by (force simp: values_of_def)
      ultimately show ?thesis
        using stored_long_int [OF a(1), of x] by blast
    qed
  qed (use 1(3) in \<open>simp_all add: repr_raises_scalar\<close>)
qed

lemma str_raises_long_int:
  "str_raises h v \<Longrightarrow> long_int v \<or> list_ex long_int (concat (map values_of h))"
  by (cases v) (auto simp: str_raises_def dest: repr_raises_long_int)

lemma str_raises_int: "str_raises h (VInt i) = (10 ^ int_max_str_digits \<le> \<bar>i\<bar>)"
  by (simp add: str_raises_def repr_raises_scalar int_too_long_iff)

lemma long_int_cases: "long_int v \<longleftrightarrow> (\<exists>i. v = VInt i \<and> int_too_long i)"
  by (cases v) (simp_all add: long_int_def)

lemma str_raises_list:
  assumes "a < length h" and "h ! a = OList xs" and "list_ex long_int xs"
  shows "str_raises h (VRef a)"
proof -
  from assms(3) obtain i where "VInt i \<in> set xs" "int_too_long i"
    unfolding list_ex_iff long_int_cases by blast
  then have "\<exists>x \<in> set xs. repr_raises h [a] x"
    by (intro bexI [of _ "VInt i"]) (simp_all add: repr_raises_scalar)
  with assms(1,2) show ?thesis
    by (simp add: str_raises_def repr_raises_ref list_ex_iff)
qed

lemma str_raises_singleton: "int_too_long i \<Longrightarrow> str_raises [OList [VInt i]] (VRef 0)"
  by (simp add: str_raises_def repr_raises_ref repr_raises_scalar)

lemma long_int_example_raises: "str_raises long_int_example (VRef 0)"
  unfolding long_int_example_def
  by (rule str_raises_singleton) (simp add: int_too_long_iff)

section \<open>Letter case\<close>

lemma of_char_lower_char:
  "(of_char (lower_char c) :: nat) =
     (if (65 \<le> (of_char c :: nat) \<and> (of_char c :: nat) \<le> 90) \<or>
         (192 \<le> (of_char c :: nat) \<and> (of_char c :: nat) \<le> 222 \<and> (of_char c :: nat) \<noteq> 215)
      then of_char c + 32 else of_char c)"
proof -
  have "((of_char c :: nat) + 32) mod 256 = of_char c + 32" if "(of_char c :: nat) \<le> 222"
    using that by simp
  then show ?thesis
    by (auto simp: lower_char_def Let_def)
qed

lemma lower_code_point:
  fixes n m :: nat
  assumes "97 \<le> m" and "m \<le> 122"
  shows "(if (65 \<le> n \<and> n \<le> 90) \<or> (192 \<le> n \<and> n \<le> 222 \<and> n \<noteq> 215) then n + 32 else n) = m
           \<longleftrightarrow> n = m \<or> n + 32 = m"
  using assms by auto

lemma lower_char_small_letter:
  assumes "small_letter d"
  shows "lower_char c = d \<longleftrightarrow> c = d \<or> (of_char c :: nat) + 32 = of_char d"
proof -
  from assms have d: "97 \<le> (of_char d :: nat)" "(of_char d :: nat) \<le> 122"
    by (simp_all add: small_letter_def)
  have "lower_char c = d \<longleftrightarrow> (of_char (lower_char c) :: nat) = of_char d"
    by (simp only: of_char_eq_iff)
  also have "\<dots> \<longleftrightarrow> (of_char c :: nat) = of_char d \<or> (of_char c :: nat) + 32 = of_char d"
    unfolding of_char_lower_char by (rule lower_code_point [OF d])
  also have "\<dots> \<longleftrightarrow> c = d \<or> (of_char c :: nat) + 32 = of_char d"
    by (simp only: of_char_eq_iff)
  finally show ?thesis .
qed

lemma py_lower_any_case:
  "list_all small_letter word \<Longrightarrow> py_lower s = word \<longleftrightarrow> any_case word s"
proof (induction word arbitrary: s)
  case Nil
  show ?case
    by (simp add: py_lower_def any_case_def)
next
  case (Cons d word)
  show ?case
  proof (cases s)
    case Nil
    then show ?thesis
      by (simp add: py_lower_def any_case_def)
  next
    case (Cons c cs)
    from Cons.prems have "small_letter d" "list_all small_letter word"
      by simp_all
    with Cons.IH [of cs] lower_char_small_letter [of d c] show ?thesis
      unfolding Cons by (simp add: py_lower_def any_case_def)
  qed
qed


section \<open>\<^verbatim>\<open>create_download_content\<close>\<close>

text \<open>
  Claim C5, as stated, fails. Asked for XML, the function returns the Python rendering
  of the rows of \<open>xml_example\<close>: the value \<^verbatim>\<open>a<b\<close> of the column \<^verbatim>\<open>note\<close> is in the
  output with its \<^verbatim>\<open><\<close> as it is, not as an entity, and the call returns instead of
  failing.
\<close>

theorem xml_less_than_raw:
  "create_download_content xml_example (VRef 1) ''XML'' =
     Returned ''[{'Book': 'Genesis', 'Chapter': 1, 'Verse': 1, 'Target Text': 'In the beginning', 'note': 'a<b'}]''"
  by code_simp

text \<open>
  Claim C5, amended. There is no XML output: for the format \<^verbatim>\<open>xml\<close>, in any letter
  case, what \<^verbatim>\<open>create_download_content\<close> returns is \<^verbatim>\<open>str(data)\<close>, there is no
  \<^verbatim>\<open>SerializeError\<close> for it to fail with, and a \<^verbatim>\<open><\<close> in a string value of a row
  is in the output as it is.
\<close>

theorem xml_is_plain_str:
  assumes "py_lower format_type = ''xml''"
  shows "create_download_content h data format_type = Returned (py_str h data) \<and>
         (\<forall>s \<in> set (string_cells h data). CHR ''<'' \<in> set s \<longrightarrow> CHR ''<'' \<in> set (py_str h data))"
  using assms by (simp add: create_download_content_def less_than_in_py_str)


theorem xml_is_plain_str_witness:
  "py_lower ''XML'' = ''xml'' \<and>
   create_download_content xml_example (VRef 1) ''XML'' = Returned (py_str xml_example (VRef 1)) \<and>
   ''a<b'' \<in> set (string_cells xml_example (VRef 1)) \<and>
   CHR ''<'' \<in> set (py_str xml_example (VRef 1))"
proof -
  have lower: "py_lower ''XML'' = ''xml''"
    by code_simp
  have cell: "''a<b'' \<in> set (string_cells xml_example (VRef 1))"
    by code_simp
  have less: "CHR ''<'' \<in> set ''a<b''"
    by simp
  from xml_is_plain_str [OF lower, of xml_example "VRef 1"] cell less
  have "create_download_content xml_example (VRef 1) ''XML'' =
          Returned (py_str xml_example (VRef 1))"
    and "CHR ''<'' \<in> set (py_str xml_example (VRef 1))"
    by blast+
  with lower cell show ?thesis
    by simp
qed


text \<open>
  Claim C10, as stated, fails. For the list \<^verbatim>\<open>[10 ** 4300]\<close> and the format
  \<^verbatim>\<open>xml\<close> the call takes its last branch, and \<^verbatim>\<open>str(data)\<close> raises
  \<^verbatim>\<open>ValueError\<close> for the integer of 4301 digits: the call raises where the claim says
  it never does.
\<close>

theorem str_raises_value_error:
  "create_download_content_raises long_int_example (VRef 0) ''xml''"
proof -
  have "py_lower ''xml'' = ''xml''"
    by code_simp
  with long_int_example_raises show ?thesis
    by (simp add: create_download_content_raises_def)
qed

text \<open>
  Claim C10, amended. The format is compared after lowercasing, so \<^verbatim>\<open>json\<close> and
  \<^verbatim>\<open>tsv\<close> are taken in any letter case. \<^verbatim>\<open>json\<close> hands the data to \<^verbatim>\<open>json.dumps\<close>
  with indent 2; \<^verbatim>\<open>tsv\<close> hands it to \<^verbatim>\<open>DataFrame.to_csv\<close> (tab separated, no index)
  when the data is a list. In every other case, among them \<^verbatim>\<open>xml\<close>, \<^verbatim>\<open>usfm\<close>,
  \<^verbatim>\<open>markdown\<close> and \<^verbatim>\<open>txt\<close>, and \<^verbatim>\<open>tsv\<close> with data that is not a list, the call
  is \<^verbatim>\<open>str(data)\<close>: it returns that string, and it raises \<^verbatim>\<open>ValueError\<close> exactly
  where \<^verbatim>\<open>str(data)\<close> does. That needs an integer of more than 4300 digits, as the
  data or held in a list or dictionary of the store: an integer as data raises when it
  has that many digits, and so does a list that holds one.
\<close>

theorem create_download_content_formats:
  "(py_lower format_type = ''json'' \<longrightarrow>
      create_download_content h data format_type = Delegated (Json_dumps data 2)) \<and>
   (py_lower format_type = ''tsv'' \<and> isinstance_list h data \<longrightarrow>
      create_download_content h data format_type =
        Delegated (DataFrame_to_csv data (CHR 0x09) False)) \<and>
   (py_lower format_type \<noteq> ''json'' \<and>
    \<not> (py_lower format_type = ''tsv'' \<and> isinstance_list h data) \<longrightarrow>
      create_download_content h data format_type = Returned (py_str h data) \<and>
      create_download_content_raises h data format_type = str_raises h data) \<and>
   (py_lower format_type \<in> {''xml'', ''usfm'', ''markdown'', ''txt''} \<longrightarrow>
      create_download_content h data format_type = Returned (py_str h data) \<and>
      create_download_content_raises h data format_type = str_raises h data) \<and>
   (create_download_content_raises h data format_type \<longrightarrow>
      long_int data \<or> list_ex long_int (concat (map values_of h))) \<and>
   str_raises h (VInt i) = (10 ^ int_max_str_digits \<le> \<bar>i\<bar>) \<and>
   (a < length h \<and> h ! a = OList xs \<and> list_ex long_int xs \<longrightarrow> str_raises h (VRef a)) \<and>
   (py_lower format_type = ''json'') = any_case ''json'' format_type \<and>
   (py_lower format_type = ''tsv'') = any_case ''tsv'' format_type"
proof -
  have "create_download_content_raises h data format_type \<longrightarrow>
      long_int data \<or> list_ex long_int (concat (map values_of h))"
    by (auto simp: create_download_content_raises_def dest: str_raises_long_int)
  moreover have "a < length h \<and> h ! a = OList xs \<and> list_ex long_int xs \<longrightarrow> str_raises h (VRef a)"
    by (auto intro: str_raises_list)
  moreover note str_raises_int [of h i]
  moreover have "(py_lower format_type = ''json'') = any_case ''json'' format_type"
    by (rule py_lower_any_case) code_simp
  moreover have "(py_lower format_type = ''tsv'') = any_case ''tsv'' format_type"
    by (rule py_lower_any_case) code_simp
  moreover have "py_lower format_type \<in> {''xml'', ''usfm'', ''markdown'', ''txt''} \<longrightarrow>
      create_download_content h data format_type = Returned (py_str h data) \<and>
      create_download_content_raises h data format_type = str_raises h data"
    by (auto simp: create_download_content_def create_download_content_raises_def)
  moreover have "py_lower format_type \<noteq> ''json'' \<and>
    \<not> (py_lower format_type = ''tsv'' \<and> isinstance_list h data) \<longrightarrow>
      create_download_content h data format_type = Returned (py_str h data) \<and>
      create_download_content_raises h data format_type = str_raises h data"
    by (auto simp: create_download_content_def create_download_content_raises_def)
  moreover have "py_lower format_type = ''json'' \<longrightarrow>
      create_download_content h data format_type = Delegated (Json_dumps data 2)"
    by (simp add: create_download_content_def)
  moreover have "py_lower format_type = ''tsv'' \<and> isinstance_list h data \<longrightarrow>
      create_download_content h data format_type =
        Delegated (DataFrame_to_csv data (CHR 0x09) False)"
    by (simp add: create_download_content_def)
  ultimately show ?thesis
    by blast
qed

theorem create_download_content_formats_witness:
  "create_download_content duplicate_example (VRef 2) ''JSON'' = Delegated (Json_dumps (VRef 2) 2) \<and>
   create_download_content duplicate_example (VRef 2) ''TSV'' =
     Delegated (DataFrame_to_csv (VRef 2) (CHR 0x09) False) \<and>
   create_download_content duplicate_example (VStr ''Genesis 1:1'') ''TSV'' = Returned ''Genesis 1:1'' \<and>
   \<not> create_download_content_raises duplicate_example (VStr ''Genesis 1:1'') ''TSV'' \<and>
   create_download_content duplicate_example (VRef 3) ''Markdown'' = Returned ''['Consistency Check']'' \<and>
   \<not> create_download_content_raises duplicate_example (VRef 3) ''Markdown'' \<and>
   create_download_content_raises long_int_example (VRef 0) ''txt'' \<and>
   list_ex long_int (concat (map values_of long_int_example))"
proof -
  have lower: "py_lower ''JSON'' = ''json''" "py_lower ''TSV'' = ''tsv''"
    "py_lower ''Markdown'' = ''markdown''" "py_lower ''txt'' = ''txt''"
    by code_simp+
  have list: "isinstance_list duplicate_example (VRef 2)"
    "\<not> isinstance_list duplicate_example (VStr ''Genesis 1:1'')"
    by code_simp+
  have str: "py_str duplicate_example (VStr ''Genesis 1:1'') = ''Genesis 1:1''"
    "py_str duplicate_example (VRef 3) = ''['Consistency Check']''"
    by code_simp+
  have short: "\<not> long_int (VStr ''Genesis 1:1'')" "\<not> long_int (VRef 3)"
    "\<not> list_ex long_int (concat (map values_of duplicate_example))"
    by code_simp+
  have long: "long_int_example ! 0 = OList [VInt (10 ^ int_max_str_digits)]"
    "0 < length long_int_example"
    "list_ex long_int [VInt (10 ^ int_max_str_digits)]"
    "\<not> long_int (VRef 0)"
    by (simp_all add: long_int_example_def long_int_def int_too_long_iff)
  have not_list: "\<not> (py_lower ''txt'' = ''tsv'' \<and> isinstance_list long_int_example (VRef 0))"
    by (simp add: lower)
  from create_download_content_formats
         [where format_type = "''JSON''" and h = duplicate_example and data = "VRef 2"
            and i = 0 and a = 0 and xs = "[]"]
  have json: "create_download_content duplicate_example (VRef 2) ''JSON'' =
      Delegated (Json_dumps (VRef 2) 2)"
    by (simp add: lower)
  from create_download_content_formats
         [where format_type = "''TSV''" and h = duplicate_example and data = "VRef 2"
            and i = 0 and a = 0 and xs = "[]"]
  have tsv: "create_download_content duplicate_example (VRef 2) ''TSV'' =
      Delegated (DataFrame_to_csv (VRef 2) (CHR 0x09) False)"
    by (simp add: lower list)
  from create_download_content_formats
         [where format_type = "''TSV''" and h = duplicate_example
            and data = "VStr ''Genesis 1:1''" and i = 0 and a = 0 and xs = "[]"]
  have plain: "create_download_content duplicate_example (VStr ''Genesis 1:1'') ''TSV'' =
      Returned ''Genesis 1:1''"
    "\<not> create_download_content_raises duplicate_example (VStr ''Genesis 1:1'') ''TSV''"
    using short by (auto simp: lower list str)
  from create_download_content_formats
         [where format_type = "''Markdown''" and h = duplicate_example and data = "VRef 3"
            and i = 0 and a = 0 and xs = "[]"]
  have markdown: "create_download_content duplicate_example (VRef 3) ''Markdown'' =
      Returned ''['Consistency Check']''"
    "\<not> create_download_content_raises duplicate_example (VRef 3) ''Markdown''"
    using short by (auto simp: lower str)
  from create_download_content_formats
         [where format_type = "''txt''" and h = long_int_example and data = "VRef 0"
            and i = 0 and a = 0 and xs = "[VInt (10 ^ int_max_str_digits)]"]
  have raised: "create_download_content_raises long_int_example (VRef 0) ''txt''"
    "list_ex long_int (concat (map values_of long_int_example))"
    using long by (auto simp: lower)
  from json tsv plain markdown raised show ?thesis
    by (intro conjI)
qed


section \<open>The stub \<^verbatim>\<open>call_ai_api\<close>\<close>

text \<open>
  Claim C9. For every content, prompt, provider and key (given or not),
  \<^verbatim>\<open>call_ai_api\<close> sends no request, so the requests sent are what they were, and
  returns the constant string \<^verbatim>\<open>AI processing result placeholder\<close>.
\<close>

theorem call_ai_api_stub:
  "call_ai_api sent content prompt api_provider api_key =
     (sent, ''AI processing result placeholder'')"
  by (simp add: call_ai_api_def)

end
